theory Spec2Isabelle
  imports Main "HOL-Library.Word"
begin

unbundle bit_operations_syntax

section \<open>Machine types and constants of \<open>shtc1.c\<close>\<close>

text \<open>
  \<open>uint8_t\<close> is an 8-bit word and \<open>uint16_t\<close> a 16-bit word. The driver is written for
  the ASF I2C master of the 32-bit SAM parts, where \<open>int\<close> has 32 bits: \<open>c_int\<close> is a
  32-bit word read as two's complement by \<open>sint\<close>.
\<close>

type_synonym u8 = "8 word"
type_synonym u16 = "16 word"
type_synonym c_int = "32 word"

definition CMD_MEASURE_LPM_CS :: "u8 list" where
  "CMD_MEASURE_LPM_CS = [0x64, 0x58]"

definition CMD_MEASURE_LPM :: "u8 list" where
  "CMD_MEASURE_LPM = [0x60, 0x9c]"

definition CMD_MEASURE_HPM_CS :: "u8 list" where
  "CMD_MEASURE_HPM_CS = [0x7c, 0xa2]"

definition CMD_MEASURE_HPM :: "u8 list" where
  "CMD_MEASURE_HPM = [0x78, 0x66]"

definition CMD_SOFT_RESET :: "u8 list" where
  "CMD_SOFT_RESET = [0x80, 0x5d]"

definition CMD_READ_ID_REG :: "u8 list" where
  "CMD_READ_ID_REG = [0xef, 0xc8]"

definition COMMAND_SIZE :: nat where
  "COMMAND_SIZE = length CMD_MEASURE_LPM"

definition SHTC1_ADDRESS :: u16 where
  "SHTC1_ADDRESS = 0x70"

definition ID_REG_CONTENT :: u8 where
  "ID_REG_CONTENT = 0x07"

definition ID_REG_MASK :: u8 where
  "ID_REG_MASK = 0x1f"

definition CRC_POLYNOMIAL :: u8 where
  "CRC_POLYNOMIAL = 0x31"

definition CRC_INIT :: u8 where
  "CRC_INIT = 0xff"

section \<open>The checksum routine \<open>shtc1_check_crc\<close>\<close>

text \<open>
  One pass of the body of the inner loop (lines 71 to 74). The operands of \<open>&\<close>, \<open><<\<close> and
  \<open>^\<close> are promoted to \<open>int\<close>; the assignment to the \<open>uint8_t\<close> register truncates the
  result again.
\<close>

definition crc_shift :: "u8 \<Rightarrow> u8" where
  "crc_shift crc =
     (if (ucast crc :: c_int) AND 0x80 \<noteq> 0
      then ucast (push_bit 1 (ucast crc :: c_int) XOR ucast CRC_POLYNOMIAL)
      else ucast (push_bit 1 (ucast crc :: c_int)))"

text \<open>The inner loop \<open>for (bit = 8; bit > 0; --bit)\<close>, by the value \<open>n\<close> of its counter \<open>bit\<close>.\<close>

fun crc_bit_loop :: "nat \<Rightarrow> u8 \<Rightarrow> u8" where
  "crc_bit_loop 0 crc = crc"
| "crc_bit_loop (Suc n) crc = crc_bit_loop n (crc_shift crc)"

text \<open>
  The outer loop over \<open>current_byte\<close>, a \<open>uint8_t\<close> counter compared with the \<open>uint8_t\<close>
  length. \<open>data\<close> is the array the pointer designates; reading beyond it is undefined in
  C and is the result \<open>None\<close> here.
\<close>

function crc_byte_loop :: "u8 list \<Rightarrow> u8 \<Rightarrow> u8 \<Rightarrow> u8 \<Rightarrow> u8 option" where
  "crc_byte_loop data data_length current_byte crc =
     (if current_byte < data_length
      then (if unat current_byte < length data
            then crc_byte_loop data data_length (current_byte + 1)
                   (crc_bit_loop 8 (crc XOR data ! unat current_byte))
            else None)
      else Some crc)"
  by pat_completeness auto
termination
proof (relation "measure (\<lambda>(data, data_length, current_byte, crc).
                    unat data_length - unat current_byte)")
  show "wf (measure (\<lambda>(data :: u8 list, data_length :: u8, current_byte :: u8, crc :: u8).
              unat data_length - unat current_byte))"
    by simp
next
  fix data :: "u8 list" and data_length current_byte crc :: u8
  assume lt: "current_byte < data_length"
  then have below: "unat current_byte < unat data_length"
    by (simp add: word_less_nat_alt)
  moreover have "unat data_length < 2 ^ LENGTH(8)"
    by (rule unsigned_less)
  ultimately have "unat current_byte + unat (1 :: u8) < 2 ^ LENGTH(8)"
    by simp
  then have "unat (current_byte + 1) = unat current_byte + unat (1 :: u8)"
    by (rule unat_add_lem [THEN iffD1])
  with below
  show "((data, data_length, current_byte + 1,
           crc_bit_loop 8 (crc XOR data ! unat current_byte)),
          data, data_length, current_byte, crc)
        \<in> measure (\<lambda>(data, data_length, current_byte, crc).
              unat data_length - unat current_byte)"
    by simp
qed

definition shtc1_check_crc :: "u8 list \<Rightarrow> u8 \<Rightarrow> u8 \<Rightarrow> bool option" where
  "shtc1_check_crc data data_length checksum =
     map_option (\<lambda>crc. crc = checksum) (crc_byte_loop data data_length 0 CRC_INIT)"

section \<open>The environment: status codes, bus transport and delay\<close>

text \<open>
  Modelled from the spec: \<open>status_codes.h\<close> is not among the sources. \<open>STATUS_OK\<close> is
  the success value, the zero of the enumeration, so that the test \<open>if (ret)\<close> of the
  driver is \<open>ret \<noteq> STATUS_OK\<close>; \<open>STATUS_ERR_BAD_DATA\<close> is the dedicated data-integrity
  error; \<open>STATUS_OTHER n\<close> stands for every other enumerator, which the driver never
  inspects and only passes on.
\<close>

datatype status_code = STATUS_OK | STATUS_ERR_BAD_DATA | STATUS_OTHER nat

text \<open>
  Modelled from the spec: \<open>i2c_master.h\<close> is not among the sources. The packet holds the
  fields the driver initialises; the buffer its \<open>data\<close> pointer designates travels beside
  it, as the bytes handed to a write and the bytes a read hands back.
\<close>

record i2c_master_packet =
  address :: u16
  data_length :: u16
  ten_bit_address :: bool
  high_speed :: bool

text \<open>What the driver asks of its environment, in the order it asks.\<close>

datatype bus_event =
    Write_no_stop i2c_master_packet "u8 list"
  | Write_stop i2c_master_packet "u8 list"
  | Read_packet i2c_master_packet
  | Delay_ms nat

text \<open>
  Modelled from the spec: the bus transport and the delay primitive are external
  collaborators (section 6 of the spec: a write of bytes with or without a stop
  condition and a read of a given length, each reporting a status; a blocking delay
  without a result). The module records everything the driver has asked for so far and
  carries the behaviour of the bus and the device: the status of a write and the status
  and bytes of a read, each as a function of the history up to and including the
  request.
\<close>

record i2c_master_module =
  bus_log :: "bus_event list"
  write_result :: "bus_event list \<Rightarrow> status_code"
  read_result :: "bus_event list \<Rightarrow> status_code \<times> (nat \<Rightarrow> u8)"

definition i2c_master_write_packet_wait_no_stop ::
  "i2c_master_module \<Rightarrow> i2c_master_packet \<Rightarrow> u8 list \<Rightarrow> status_code \<times> i2c_master_module" where
  "i2c_master_write_packet_wait_no_stop m packet bytes =
     (let log' = bus_log m @ [Write_no_stop packet (take (unat (data_length packet)) bytes)]
      in (write_result m log', m\<lparr>bus_log := log'\<rparr>))"

definition i2c_master_write_packet_wait ::
  "i2c_master_module \<Rightarrow> i2c_master_packet \<Rightarrow> u8 list \<Rightarrow> status_code \<times> i2c_master_module" where
  "i2c_master_write_packet_wait m packet bytes =
     (let log' = bus_log m @ [Write_stop packet (take (unat (data_length packet)) bytes)]
      in (write_result m log', m\<lparr>bus_log := log'\<rparr>))"

definition i2c_master_read_packet_wait ::
  "i2c_master_module \<Rightarrow> i2c_master_packet \<Rightarrow> status_code \<times> u8 list \<times> i2c_master_module" where
  "i2c_master_read_packet_wait m packet =
     (let log' = bus_log m @ [Read_packet packet];
          (ret, bytes) = read_result m log'
      in (ret, map bytes [0 ..< unat (data_length packet)], m\<lparr>bus_log := log'\<rparr>))"

definition delay_ms :: "nat \<Rightarrow> i2c_master_module \<Rightarrow> i2c_master_module" where
  "delay_ms n m = m\<lparr>bus_log := bus_log m @ [Delay_ms n]\<rparr>"

section \<open>The driver operations\<close>

text \<open>
  The output parameters \<open>int *temp\<close> and \<open>int *rh\<close> are addresses into a store of \<open>int\<close>
  objects, so that every assignment through them and every read back is explicit.
\<close>

type_synonym addr = nat
type_synonym store = "addr \<Rightarrow> c_int"

text \<open>
  The right-hand sides of lines 105 and 106: the \<open>uint8_t\<close> operands are promoted to
  \<open>int\<close>, the second byte is masked and the first one shifted into the high byte.
\<close>

definition raw_code :: "u8 \<Rightarrow> u8 \<Rightarrow> c_int" where
  "raw_code msb lsb = (ucast lsb AND 0xff) OR push_bit 8 (ucast msb)"

text \<open>
  \<open>shtc1_read_async_result\<close>, lines 80 to 111. The result is the status, the module after
  the read and the store; \<open>None\<close> is an out-of-bounds read inside the checksum routine.
  The second check is evaluated only when the first one passes, as \<open>||\<close> does. On a
  signed \<open>int\<close> the operator \<open>>>\<close> is the arithmetic shift \<open>signed_drop_bit\<close>.
\<close>

definition shtc1_read_async_result ::
  "i2c_master_module \<Rightarrow> addr \<Rightarrow> addr \<Rightarrow> store \<Rightarrow> (status_code \<times> i2c_master_module \<times> store) option" where
  "shtc1_read_async_result i2c_master_instance_ptr temp rh s =
     (let packet = \<lparr>address = SHTC1_ADDRESS, data_length = 6,
                     ten_bit_address = False, high_speed = False\<rparr>;
          (ret, data, m) = i2c_master_read_packet_wait i2c_master_instance_ptr packet
      in if ret \<noteq> STATUS_OK then Some (ret, m, s)
         else case shtc1_check_crc data 2 (data ! 2) of
           None \<Rightarrow> None
         | Some crc_ok_t \<Rightarrow>
             if \<not> crc_ok_t then Some (STATUS_ERR_BAD_DATA, m, s)
             else case shtc1_check_crc (drop 3 data) 2 (data ! 5) of
               None \<Rightarrow> None
             | Some crc_ok_rh \<Rightarrow>
                 if \<not> crc_ok_rh then Some (STATUS_ERR_BAD_DATA, m, s)
                 else
                   let s1 = s(temp := raw_code (data ! 0) (data ! 1));
                       s2 = s1(rh := raw_code (data ! 3) (data ! 4));
                       s3 = s2(temp := signed_drop_bit 13 (21875 * s2 temp) - 45000);
                       s4 = s3(rh := signed_drop_bit 13 (12500 * s3 rh))
                   in Some (STATUS_OK, m, s4))"

text \<open>\<open>shtc1_read_sync\<close>, lines 113 to 131: the delay comes before the test of \<open>ret\<close>.\<close>

definition shtc1_read_sync ::
  "i2c_master_module \<Rightarrow> u8 list \<Rightarrow> addr \<Rightarrow> addr \<Rightarrow> store \<Rightarrow>
     (status_code \<times> i2c_master_module \<times> store) option" where
  "shtc1_read_sync i2c_master_instance_ptr command temp rh s =
     (let packet = \<lparr>address = SHTC1_ADDRESS, data_length = of_nat COMMAND_SIZE,
                     ten_bit_address = False, high_speed = False\<rparr>;
          (ret, m1) = i2c_master_write_packet_wait_no_stop i2c_master_instance_ptr packet command;
          m2 = delay_ms 50 m1
      in if ret \<noteq> STATUS_OK then Some (ret, m2, s)
         else shtc1_read_async_result m2 temp rh s)"

definition shtc1_read_lpm_sync ::
  "i2c_master_module \<Rightarrow> addr \<Rightarrow> addr \<Rightarrow> store \<Rightarrow> (status_code \<times> i2c_master_module \<times> store) option" where
  "shtc1_read_lpm_sync i2c_master_instance_ptr temp rh s =
     shtc1_read_sync i2c_master_instance_ptr CMD_MEASURE_LPM_CS temp rh s"

definition shtc1_read_hpm_sync ::
  "i2c_master_module \<Rightarrow> addr \<Rightarrow> addr \<Rightarrow> store \<Rightarrow> (status_code \<times> i2c_master_module \<times> store) option" where
  "shtc1_read_hpm_sync i2c_master_instance_ptr temp rh s =
     shtc1_read_sync i2c_master_instance_ptr CMD_MEASURE_HPM_CS temp rh s"

definition shtc1_read_lpm_async :: "i2c_master_module \<Rightarrow> status_code \<times> i2c_master_module" where
  "shtc1_read_lpm_async i2c_master_instance_ptr =
     (let packet = \<lparr>address = SHTC1_ADDRESS, data_length = of_nat COMMAND_SIZE,
                     ten_bit_address = False, high_speed = False\<rparr>
      in i2c_master_write_packet_wait_no_stop i2c_master_instance_ptr packet CMD_MEASURE_LPM)"

definition shtc1_read_hpm_async :: "i2c_master_module \<Rightarrow> status_code \<times> i2c_master_module" where
  "shtc1_read_hpm_async i2c_master_instance_ptr =
     (let packet = \<lparr>address = SHTC1_ADDRESS, data_length = of_nat COMMAND_SIZE,
                     ten_bit_address = False, high_speed = False\<rparr>
      in i2c_master_write_packet_wait_no_stop i2c_master_instance_ptr packet CMD_MEASURE_HPM)"

definition shtc1_reset :: "i2c_master_module \<Rightarrow> status_code \<times> i2c_master_module" where
  "shtc1_reset i2c_master_instance_ptr =
     (let packet = \<lparr>address = SHTC1_ADDRESS, data_length = of_nat COMMAND_SIZE,
                     ten_bit_address = False, high_speed = False\<rparr>
      in i2c_master_write_packet_wait i2c_master_instance_ptr packet CMD_SOFT_RESET)"

text \<open>
  \<open>shtc1_probe\<close>, lines 181 to 207: the status of the write is dropped, the packet is
  reused for the read with the length of the 3-byte buffer, and the operands of the
  final comparison are promoted to \<open>int\<close>.
\<close>

definition shtc1_probe :: "i2c_master_module \<Rightarrow> (bool \<times> i2c_master_module) option" where
  "shtc1_probe i2c_master_instance_ptr =
     (let packet = \<lparr>address = SHTC1_ADDRESS, data_length = of_nat COMMAND_SIZE,
                     ten_bit_address = False, high_speed = False\<rparr>;
          (_, m1) = i2c_master_write_packet_wait_no_stop i2c_master_instance_ptr packet CMD_READ_ID_REG;
          packet' = packet\<lparr>data_length := 3\<rparr>;
          m2 = delay_ms 50 m1;
          (ret, data, m3) = i2c_master_read_packet_wait m2 packet'
      in if ret \<noteq> STATUS_OK then Some (False, m3)
         else case shtc1_check_crc data 2 (data ! 2) of
           None \<Rightarrow> None
         | Some crc_ok \<Rightarrow>
             if \<not> crc_ok then Some (False, m3)
             else Some ((ucast (data ! 1) :: c_int) AND ucast ID_REG_MASK = ucast ID_REG_CONTENT, m3))"

section \<open>Names for the requests the driver makes\<close>

text \<open>
  The requests as they appear in the log of the module, with the device address, the
  lengths and the flags written out.
\<close>

definition command_write :: "u8 list \<Rightarrow> bus_event" where
  "command_write bytes =
     Write_no_stop \<lparr>address = 0x70, data_length = 2,
                     ten_bit_address = False, high_speed = False\<rparr> bytes"

definition measurement_read :: bus_event where
  "measurement_read =
     Read_packet \<lparr>address = 0x70, data_length = 6,
                   ten_bit_address = False, high_speed = False\<rparr>"

definition id_read :: bus_event where
  "id_read =
     Read_packet \<lparr>address = 0x70, data_length = 3,
                   ten_bit_address = False, high_speed = False\<rparr>"

section \<open>The checksum as the specification words it\<close>

text \<open>
  Section 4.1 of the specification, on natural numbers below 256 as the values of the
  8-bit register: in one iteration the register is shifted left and truncated to 8 bits,
  and the polynomial is XORed in when the top bit was set; a byte is XORed into the
  register and followed by 8 iterations; the register starts at \<open>0xFF\<close> and its final
  value is the checksum, without reflection and without a final XOR.
\<close>

definition spec_crc_iteration :: "nat \<Rightarrow> nat" where
  "spec_crc_iteration r = (if 128 \<le> r then (2 * r) mod 256 XOR 0x31 else (2 * r) mod 256)"

definition spec_crc_byte :: "nat \<Rightarrow> nat \<Rightarrow> nat" where
  "spec_crc_byte r b = (spec_crc_iteration ^^ 8) (r XOR b)"

definition spec_crc8 :: "nat list \<Rightarrow> nat" where
  "spec_crc8 bytes = foldl spec_crc_byte 0xFF bytes"

definition spec_verify :: "nat list \<Rightarrow> nat \<Rightarrow> bool" where
  "spec_verify bytes expected = (spec_crc8 bytes = expected)"

section \<open>Concrete environments\<close>

text \<open>
  A device that answers every read with the given status and bytes and every write with
  the given status, from an empty log; used where a theorem is run on a concrete input.
\<close>

definition frame_of :: "u8 list \<Rightarrow> nat \<Rightarrow> u8" where
  "frame_of bytes i = (if i < length bytes then bytes ! i else 0)"

definition example_module :: "status_code \<Rightarrow> status_code \<Rightarrow> u8 list \<Rightarrow> i2c_master_module" where
  "example_module w r bytes =
     \<lparr>bus_log = [], write_result = (\<lambda>_. w), read_result = (\<lambda>_. (r, frame_of bytes))\<rparr>"

text \<open>
  A store that holds 7 everywhere, and what the caller sees of a result: the status and
  the two output locations read as signed integers.
\<close>

definition example_store :: store where
  "example_store = (\<lambda>_. 7)"

definition read_outputs ::
  "addr \<Rightarrow> addr \<Rightarrow> (status_code \<times> i2c_master_module \<times> store) option \<Rightarrow>
     (status_code \<times> int \<times> int) option" where
  "read_outputs temp rh res = map_option (\<lambda>(ret, m, s). (ret, sint (s temp), sint (s rh))) res"

section \<open>The checksum routine against the specification\<close>

declare crc_byte_loop.simps [simp del]

lemma and80: "(ucast (crc::u8) :: c_int) AND 0x80 \<noteq> 0 \<longleftrightarrow> bit crc 7"
proof -
  have "(0x80 :: c_int) = 2 ^ 7" by simp
  then have "(ucast crc :: c_int) AND 0x80 = 0 \<longleftrightarrow> \<not> bit (ucast crc :: c_int) 7"
    by (simp only: and_exp_eq_0_iff_not_bit)
  then show ?thesis by (simp add: bit_ucast_iff)
qed

lemma trunc_shift: "(ucast (push_bit 1 (ucast crc :: c_int)) :: u8) = push_bit 1 crc"
  by (rule bit_word_eqI) (auto simp add: bit_simps simp del: push_bit_Suc push_bit_eq_mult simp flip: One_nat_def)

lemma trunc_shift_xor:
  "(ucast (push_bit 1 (ucast crc :: c_int) XOR ucast p) :: u8) = push_bit 1 crc XOR (p :: u8)"
  by (rule bit_word_eqI) (auto simp add: bit_xor_iff bit_push_bit_iff bit_ucast_iff simp del: push_bit_Suc)

lemma crc_shift_word:
  "crc_shift crc = (if bit crc 7 then 2 * crc XOR CRC_POLYNOMIAL else 2 * crc)"
proof -
  have "push_bit 1 crc = 2 * crc"
    by simp
  then show ?thesis
    unfolding crc_shift_def by (simp only: and80 trunc_shift trunc_shift_xor)
qed

lemma bit7_unat: "bit (crc :: u8) 7 \<longleftrightarrow> 128 \<le> unat crc"
proof -
  have below: "unat crc < 2 * 128"
    using unsigned_less [of crc] by simp
  have "bit crc 7 \<longleftrightarrow> bit (unat crc) 7"
    by (simp add: bit_unsigned_iff)
  also have "\<dots> \<longleftrightarrow> odd (unat crc div 128)"
    by (simp add: bit_iff_odd)
  also have "\<dots> \<longleftrightarrow> 128 \<le> unat crc"
  proof (cases "128 \<le> unat crc")
    case True
    then have "0 < unat crc div 128"
      by (simp add: div_greater_zero_iff)
    moreover have "unat crc div 128 < 2"
      using below by (rule less_mult_imp_div_less)
    ultimately have "unat crc div 128 = 1"
      by simp
    with True show ?thesis
      by simp
  next
    case False
    then show ?thesis
      by simp
  qed
  finally show ?thesis .
qed

lemma unat_shift: "unat (2 * (crc :: u8)) = (2 * unat crc) mod 256"
  by (simp add: unat_word_ariths)

lemma unat_crc_shift: "unat (crc_shift crc) = spec_crc_iteration (unat crc)"
  by (simp add: crc_shift_word spec_crc_iteration_def bit7_unat unsigned_xor_eq unat_shift CRC_POLYNOMIAL_def)

lemma unat_crc_bit_loop: "unat (crc_bit_loop n crc) = (spec_crc_iteration ^^ n) (unat crc)"
  by (induction n arbitrary: crc) (simp_all add: unat_crc_shift funpow_swap1)

lemma unat_crc_byte: "unat (crc_bit_loop 8 (crc XOR b)) = spec_crc_byte (unat crc) (unat b)"
  by (simp only: unat_crc_bit_loop spec_crc_byte_def unsigned_xor_eq)

lemma unat_foldl_crc:
  "unat (foldl (\<lambda>r b. crc_bit_loop 8 (r XOR b)) crc bs) = foldl spec_crc_byte (unat crc) (map unat bs)"
  by (induction bs arbitrary: crc) (simp_all only: foldl.simps list.map unat_crc_byte)

lemma crc_byte_loop_foldl:
  "i \<le> n \<Longrightarrow> unat i \<le> length data \<Longrightarrow>
   crc_byte_loop data n i crc =
     (if unat n \<le> length data
      then Some (foldl (\<lambda>r b. crc_bit_loop 8 (r XOR b)) crc (drop (unat i) (take (unat n) data)))
      else None)"
proof (induction data n i crc rule: crc_byte_loop.induct)
  case (1 data n i crc)
  show ?case
  proof (cases "i < n")
    case False
    with "1.prems" have "i = n" by simp
    then show ?thesis using "1.prems" by (subst crc_byte_loop.simps) simp
  next
    case lt: True
    then have ult: "unat i < unat n" by (simp add: word_less_nat_alt)
    have "unat n < 2 ^ LENGTH(8)" by (rule unsigned_less)
    with ult have "unat i + unat (1 :: u8) < 2 ^ LENGTH(8)" by simp
    then have "unat (i + 1) = unat i + unat (1 :: u8)" by (rule unat_add_lem [THEN iffD1])
    then have suc: "unat (i + 1) = Suc (unat i)" by simp
    show ?thesis
    proof (cases "unat i < length data")
      case False
      with ult have "\<not> unat n \<le> length data" by simp
      with lt False show ?thesis by (subst crc_byte_loop.simps) simp
    next
      case inb: True
      have le: "i + 1 \<le> n" using lt by (rule inc_le)
      have le': "unat (i + 1) \<le> length data" using inb suc by simp
      have step: "crc_byte_loop data n i crc =
                  crc_byte_loop data n (i + 1) (crc_bit_loop 8 (crc XOR data ! unat i))"
        using lt inb by (subst crc_byte_loop.simps) simp
      have "unat n \<le> length data \<Longrightarrow> drop (unat i) (take (unat n) data) =
              data ! unat i # drop (Suc (unat i)) (take (unat n) data)"
        using ult inb by (simp add: Cons_nth_drop_Suc [symmetric])
      then show ?thesis
        unfolding step "1.IH" [OF lt inb le le'] suc by simp
    qed
  qed
qed

lemma shtc1_check_crc_foldl:
  "shtc1_check_crc data len checksum =
     (if unat len \<le> length data
      then Some (foldl (\<lambda>r b. crc_bit_loop 8 (r XOR b)) CRC_INIT (take (unat len) data) = checksum)
      else None)"
  using crc_byte_loop_foldl [of 0 len data CRC_INIT] by (simp add: shtc1_check_crc_def)

lemma unat_crc_register:
  "unat (foldl (\<lambda>r b. crc_bit_loop 8 (r XOR b)) CRC_INIT bs) = spec_crc8 (map unat bs)"
  by (simp add: unat_foldl_crc spec_crc8_def CRC_INIT_def)

text \<open>
  The specification's checksum on two vectors known from outside the driver: the check
  value \<open>0xF7\<close> of the CRC-8 with polynomial \<open>0x31\<close> and initial value \<open>0xFF\<close> on the
  ASCII digits 1 to 9, and the sensor data sheet's example \<open>0xBEEF\<close> with checksum \<open>0x92\<close>.
\<close>

lemma funpow_8: "(f ^^ 8) x = f (f (f (f (f (f (f (f x)))))))"
  by (simp add: eval_nat_numeral)

lemma spec_crc8_check_value:
  "spec_crc8 [0x31, 0x32, 0x33, 0x34, 0x35, 0x36, 0x37, 0x38, 0x39] = 0xF7"
  by (simp add: spec_crc8_def spec_crc_byte_def funpow_8 spec_crc_iteration_def)

lemma spec_crc8_sensor_example: "spec_crc8 [0xBE, 0xEF] = 0x92"
  by (simp add: spec_crc8_def spec_crc_byte_def funpow_8 spec_crc_iteration_def)

text \<open>
  Claim C1. The checksum routine is the bit-wise CRC-8 of the specification: polynomial
  \<open>0x31\<close>, initial register \<open>0xFF\<close>, most significant bit first, no reflection and no
  final XOR. For every array and every length within it, the register the routine ends
  with is \<open>spec_crc8\<close> of the first \<open>len\<close> bytes, and the routine returns true if and only
  if that value is the expected checksum byte. A length beyond the array is an
  out-of-bounds read.
\<close>

theorem shtc1_check_crc_is_crc8:
  "shtc1_check_crc data len checksum =
     (if unat len \<le> length data
      then Some (spec_verify (map unat (take (unat len) data)) (unat checksum))
      else None)"
proof -
  let ?reg = "foldl (\<lambda>r b. crc_bit_loop 8 (r XOR b)) CRC_INIT (take (unat len) data)"
  have "(?reg = checksum) = (unat ?reg = unat checksum)"
    by (rule word_unat_eq_iff)
  then have eq: "(?reg = checksum) = spec_verify (map unat (take (unat len) data)) (unat checksum)"
    by (simp only: unat_crc_register spec_verify_def)
  show ?thesis
    unfolding shtc1_check_crc_foldl by (simp only: eq)
qed

section \<open>Conversion arithmetic and the shape of a result\<close>

lemma upt_6: "[0..<6] = [0, 1, 2, 3, 4, 5]"
  by (simp add: upt_rec)

lemma upt_3: "[0..<3] = [0, 1, 2]"
  by (simp add: upt_rec)

lemma check_crc_pair_prefix:
  "shtc1_check_crc (a # b # x # rest) 2 c = shtc1_check_crc [a, b] 2 c"
  by (simp add: shtc1_check_crc_foldl)

lemma check_crc_pair_total:
  "shtc1_check_crc [a, b] 2 c = Some (crc_bit_loop 8 (crc_bit_loop 8 (CRC_INIT XOR a) XOR b) = c)"
  by (simp add: shtc1_check_crc_foldl)

lemma uint_raw_code: "uint (raw_code msb lsb) = 256 * uint msb + uint lsb"
proof -
  have lsb: "take_bit 8 (uint lsb) = uint lsb"
    using take_bit_int_eq_self [of "uint lsb" 8] uint_lt2p [of lsb] by simp
  have "(0xff :: c_int) = mask 8"
    by (simp add: mask_eq_exp_minus_1)
  then have "(ucast lsb :: c_int) AND 0xff = take_bit 8 (ucast lsb)"
    by (simp only: take_bit_eq_mask)
  then have low: "uint ((ucast lsb :: c_int) AND 0xff) = uint lsb"
    by (simp only: unsigned_take_bit_eq) (simp add: uint_up_ucast is_up lsb)
  have "push_bit 8 (uint msb) < 2 ^ 32"
    using uint_lt2p [of msb] by (simp add: push_bit_eq_mult)
  then have high: "uint (push_bit 8 (ucast msb :: c_int)) = push_bit 8 (uint msb)"
    by (simp add: unsigned_push_bit_eq uint_up_ucast is_up take_bit_int_eq_self)
  have "uint (raw_code msb lsb) = take_bit 8 (uint lsb) OR push_bit 8 (uint msb)"
    unfolding raw_code_def uint_or low high lsb ..
  also have "\<dots> = take_bit 8 (uint lsb) + push_bit 8 (uint msb)"
    using concat_bit_eq [of 8 "uint lsb" "uint msb"] by (simp add: concat_bit_def)
  finally show ?thesis
    by (simp add: lsb push_bit_eq_mult)
qed

lemma raw_code_range: "0 \<le> uint (raw_code msb lsb)" "uint (raw_code msb lsb) \<le> 65535"
  using uint_lt2p [of msb] uint_lt2p [of lsb]
  by (simp_all add: uint_raw_code)

lemma sint_scaled:
  fixes w :: c_int
  assumes "0 \<le> k" "k \<le> 21875" "uint w \<le> 65535"
  shows "sint (word_of_int k * w) = k * uint w"
proof -
  have "k * uint w \<le> 21875 * 65535"
    using assms by (intro mult_mono) simp_all
  then have hi: "k * uint w < 2 ^ 31"
    by simp
  have "0 \<le> k * uint w"
    using assms(1) by (intro mult_nonneg_nonneg) simp_all
  then have lo: "- (2 ^ 31) \<le> k * uint w"
    by simp
  have "word_of_int k * w = (word_of_int (k * uint w) :: c_int)"
    by simp
  then have "sint (word_of_int k * w) = signed_take_bit (LENGTH(32) - 1) (k * uint w)"
    by (simp only: sint_sbintrunc')
  also have "\<dots> = k * uint w"
    using lo hi by (simp add: signed_take_bit_int_eq_self)
  finally show ?thesis .
qed


lemma sint_minus_const:
  fixes x :: c_int
  assumes "- (2 ^ 31) \<le> sint x - k" "sint x - k < 2 ^ 31"
  shows "sint (x - word_of_int k) = sint x - k"
proof -
  have "x - word_of_int k = (word_of_int (sint x - k) :: c_int)"
    by simp
  then have "sint (x - word_of_int k) = signed_take_bit (LENGTH(32) - 1) (sint x - k)"
    by (simp only: sint_sbintrunc')
  also have "\<dots> = sint x - k"
    using assms by (simp add: signed_take_bit_int_eq_self)
  finally show ?thesis .
qed

lemma sint_shifted_product:
  fixes w :: c_int
  assumes "0 \<le> k" "k \<le> 21875" "uint w \<le> 65535"
  shows "sint (signed_drop_bit 13 (word_of_int k * w)) = (k * uint w) div 2 ^ 13"
  by (simp only: sint_signed_drop_bit_eq sint_scaled [OF assms] drop_bit_eq_div)

lemma shifted_bounds:
  fixes q :: int
  assumes "0 \<le> q" "q \<le> 21875 * 65535"
  shows "0 \<le> q div 2 ^ 13" "q div 2 ^ 13 \<le> 174997"
proof -
  show "0 \<le> q div 2 ^ 13"
    using assms(1) by (simp add: pos_imp_zdiv_nonneg_iff)
  have "q div 2 ^ 13 \<le> (21875 * 65535) div 2 ^ 13"
    using assms(2) by (rule zdiv_mono1) simp
  then show "q div 2 ^ 13 \<le> 174997"
    by simp
qed

lemma temp_conversion:
  "sint (signed_drop_bit 13 (21875 * raw_code msb lsb) - 45000) =
     (21875 * (256 * uint msb + uint lsb)) div 2 ^ 13 - 45000"
proof -
  define S where "S = 256 * uint msb + uint lsb"
  let ?x = "signed_drop_bit 13 (word_of_int 21875 * raw_code msb lsb)"
  have S: "uint (raw_code msb lsb) = S" "0 \<le> S" "S \<le> 65535"
    using raw_code_range [of msb lsb] by (simp_all add: uint_raw_code S_def)
  have x: "sint ?x = (21875 * S) div 2 ^ 13"
    using sint_shifted_product [of 21875 "raw_code msb lsb"] S by simp
  have "0 \<le> 21875 * S" "21875 * S \<le> 21875 * 65535"
    using S by simp_all
  then have "0 \<le> (21875 * S) div 2 ^ 13" "(21875 * S) div 2 ^ 13 \<le> 174997"
    by (rule shifted_bounds)+
  then have "- (2 ^ 31) \<le> sint ?x - 45000" "sint ?x - 45000 < 2 ^ 31"
    unfolding x by simp_all
  then have "sint (?x - word_of_int 45000) = sint ?x - 45000"
    by (rule sint_minus_const)
  then show ?thesis
    unfolding x S_def by simp
qed

lemma rh_conversion:
  "sint (signed_drop_bit 13 (12500 * raw_code msb lsb)) =
     (12500 * (256 * uint msb + uint lsb)) div 2 ^ 13"
  using sint_shifted_product [of 12500 "raw_code msb lsb"] raw_code_range [of msb lsb]
  by (simp add: uint_raw_code)


lemma read_measurement_frame:
  assumes "read_result m (bus_log m @ [measurement_read]) = (ret, frame)"
  shows "i2c_master_read_packet_wait m
           \<lparr>address = SHTC1_ADDRESS, data_length = 6, ten_bit_address = False, high_speed = False\<rparr> =
         (ret, [frame 0, frame 1, frame 2, frame 3, frame 4, frame 5],
          m\<lparr>bus_log := bus_log m @ [measurement_read]\<rparr>)"
  using assms
  by (simp add: i2c_master_read_packet_wait_def measurement_read_def SHTC1_ADDRESS_def upt_6)

lemma shtc1_read_async_result_cases:
  assumes "read_result m (bus_log m @ [measurement_read]) = (ret, frame)"
  shows "shtc1_read_async_result m temp rh s =
     Some (if ret \<noteq> STATUS_OK
           then (ret, m\<lparr>bus_log := bus_log m @ [measurement_read]\<rparr>, s)
           else if shtc1_check_crc [frame 0, frame 1] 2 (frame 2) = Some True
                 \<and> shtc1_check_crc [frame 3, frame 4] 2 (frame 5) = Some True
           then (STATUS_OK, m\<lparr>bus_log := bus_log m @ [measurement_read]\<rparr>,
                 (let s2 = (s(temp := raw_code (frame 0) (frame 1)))
                             (rh := raw_code (frame 3) (frame 4));
                      s3 = s2(temp := signed_drop_bit 13 (21875 * s2 temp) - 45000)
                  in s3(rh := signed_drop_bit 13 (12500 * s3 rh))))
           else (STATUS_ERR_BAD_DATA, m\<lparr>bus_log := bus_log m @ [measurement_read]\<rparr>, s))"
  unfolding shtc1_read_async_result_def read_measurement_frame [OF assms] Let_def
  by (simp add: check_crc_pair_prefix check_crc_pair_total)

lemma decoded_store_distinct:
  assumes "temp \<noteq> rh"
  shows "(let s2 = (s(temp := t))(rh := h);
              s3 = s2(temp := signed_drop_bit 13 (21875 * s2 temp) - 45000)
          in s3(rh := signed_drop_bit 13 (12500 * s3 rh))) =
         (s(temp := signed_drop_bit 13 (21875 * t) - 45000))
            (rh := signed_drop_bit 13 (12500 * h))"
  using assms by (auto simp add: Let_def fun_eq_iff)

section \<open>The result-decoding operation\<close>

text \<open>
  Claim C2. For every measurement frame whose transport read succeeded, the operation
  checks the temperature pair (bytes 0 and 1 against byte 2) and the humidity pair (bytes
  3 and 4 against byte 5), each with its own checksum byte. It returns
  \<open>STATUS_ERR_BAD_DATA\<close> if and only if at least one of the two checks fails, and then the
  store is the one it was given; it returns \<open>STATUS_OK\<close> if and only if both checks pass.
\<close>

theorem result_bad_data_iff_crc_fails:
  assumes "read_result m (bus_log m @ [measurement_read]) = (STATUS_OK, frame)"
  shows "\<exists>ret m' s'. shtc1_read_async_result m temp rh s = Some (ret, m', s')
     \<and> (ret = STATUS_ERR_BAD_DATA \<longleftrightarrow>
          \<not> (shtc1_check_crc [frame 0, frame 1] 2 (frame 2) = Some True)
          \<or> \<not> (shtc1_check_crc [frame 3, frame 4] 2 (frame 5) = Some True))
     \<and> (ret = STATUS_OK \<longleftrightarrow>
          shtc1_check_crc [frame 0, frame 1] 2 (frame 2) = Some True
          \<and> shtc1_check_crc [frame 3, frame 4] 2 (frame 5) = Some True)
     \<and> (ret = STATUS_ERR_BAD_DATA \<longrightarrow> s' = s)"
  unfolding shtc1_read_async_result_cases [OF assms] by simp

theorem result_bad_data_iff_crc_fails_witness:
  "read_result (example_module STATUS_OK STATUS_OK [0x68, 0x3A, 0xFD, 0x80, 0x01, 0xA2])
     (bus_log (example_module STATUS_OK STATUS_OK [0x68, 0x3A, 0xFD, 0x80, 0x01, 0xA2]) @ [measurement_read])
     = (STATUS_OK, frame_of [0x68, 0x3A, 0xFD, 0x80, 0x01, 0xA2])
   \<and> shtc1_check_crc [0x68, 0x3A] 2 0xFD = Some True
   \<and> shtc1_check_crc [0x80, 0x01] 2 0xA2 = Some False
   \<and> (\<exists>m'. shtc1_read_async_result (example_module STATUS_OK STATUS_OK [0x68, 0x3A, 0xFD, 0x80, 0x01, 0xA2])
               0 1 (\<lambda>_. 7) = Some (STATUS_ERR_BAD_DATA, m', \<lambda>_. 7))"
proof -
  let ?m = "example_module STATUS_OK STATUS_OK [0x68, 0x3A, 0xFD, 0x80, 0x01, 0xA2]"
  have r: "read_result ?m (bus_log ?m @ [measurement_read])
             = (STATUS_OK, frame_of [0x68, 0x3A, 0xFD, 0x80, 0x01, 0xA2])"
    by (simp add: example_module_def)
  have t: "shtc1_check_crc [0x68, 0x3A] 2 0xFD = Some True"
    by code_simp
  have h: "shtc1_check_crc [0x80, 0x01] 2 0xA2 = Some False"
    by code_simp
  from result_bad_data_iff_crc_fails [OF r, of 0 1 "\<lambda>_. 7"] t h
  show ?thesis using r by (auto simp add: frame_of_def)
qed

text \<open>
  Claim C3, amended to distinct output locations. For a frame that was read successfully
  and passes both checks, and two distinct output locations, the temperature output is
  computed from the raw code \<open>S\<close> assembled big-endian from bytes 0 and 1 (first byte
  high): read as a signed 32-bit \<open>int\<close> it equals \<open>(21875 * S) >> 13 - 45000\<close> on the
  integers. The 32-bit product \<open>21875 * S\<close> equals the product on the integers, which is
  non-negative and below \<open>2 ^ 31\<close>: nothing overflows before the shift, and the shift
  works on a non-negative value.
\<close>

theorem temperature_conversion:
  assumes "read_result m (bus_log m @ [measurement_read]) = (STATUS_OK, frame)"
    and "shtc1_check_crc [frame 0, frame 1] 2 (frame 2) = Some True"
    and "shtc1_check_crc [frame 3, frame 4] 2 (frame 5) = Some True"
    and "temp \<noteq> rh"
  shows "\<exists>m' s'. shtc1_read_async_result m temp rh s = Some (STATUS_OK, m', s')
     \<and> s' temp = signed_drop_bit 13 (21875 * raw_code (frame 0) (frame 1)) - 45000
     \<and> sint (raw_code (frame 0) (frame 1)) = 256 * uint (frame 0) + uint (frame 1)
     \<and> sint (21875 * raw_code (frame 0) (frame 1)) = 21875 * (256 * uint (frame 0) + uint (frame 1))
     \<and> 0 \<le> 21875 * (256 * uint (frame 0) + uint (frame 1))
     \<and> 21875 * (256 * uint (frame 0) + uint (frame 1)) < 2 ^ 31
     \<and> sint (s' temp) = (21875 * (256 * uint (frame 0) + uint (frame 1))) div 2 ^ 13 - 45000"
proof -
  let ?raw = "raw_code (frame 0) (frame 1)"
  have range: "0 \<le> uint ?raw" "uint ?raw \<le> 65535"
    by (rule raw_code_range)+
  have prod: "sint (21875 * ?raw) = 21875 * uint ?raw"
    using sint_scaled [of 21875 ?raw] range by simp
  have raw: "sint ?raw = uint ?raw"
    using sint_scaled [of 1 ?raw] range by simp
  have "21875 * uint ?raw \<le> 21875 * 65535"
    using range by simp
  then have "21875 * uint ?raw < 2 ^ 31"
    by simp
  moreover have "0 \<le> 21875 * uint ?raw"
    using range by simp
  ultimately show ?thesis
    unfolding shtc1_read_async_result_cases [OF assms(1)] decoded_store_distinct [OF assms(4)]
    using assms(2,3,4) prod raw by (simp add: temp_conversion uint_raw_code)
qed

theorem temperature_conversion_witness:
  "read_result (example_module STATUS_OK STATUS_OK [0x68, 0x3A, 0xFD, 0x80, 0x00, 0xA2])
     (bus_log (example_module STATUS_OK STATUS_OK [0x68, 0x3A, 0xFD, 0x80, 0x00, 0xA2]) @ [measurement_read])
     = (STATUS_OK, frame_of [0x68, 0x3A, 0xFD, 0x80, 0x00, 0xA2])
   \<and> shtc1_check_crc [0x68, 0x3A] 2 0xFD = Some True
   \<and> shtc1_check_crc [0x80, 0x00] 2 0xA2 = Some True
   \<and> (0 :: addr) \<noteq> 1
   \<and> (\<exists>m' s'. shtc1_read_async_result
                    (example_module STATUS_OK STATUS_OK [0x68, 0x3A, 0xFD, 0x80, 0x00, 0xA2])
                    0 1 (\<lambda>_. 7) = Some (STATUS_OK, m', s')
          \<and> sint (s' 0) = 26248)"
proof -
  let ?m = "example_module STATUS_OK STATUS_OK [0x68, 0x3A, 0xFD, 0x80, 0x00, 0xA2]"
  let ?f = "frame_of [0x68, 0x3A, 0xFD, 0x80, 0x00, 0xA2]"
  have r: "read_result ?m (bus_log ?m @ [measurement_read]) = (STATUS_OK, ?f)"
    by (simp add: example_module_def)
  have t: "shtc1_check_crc [0x68, 0x3A] 2 0xFD = Some True"
    by code_simp
  have h: "shtc1_check_crc [0x80, 0x00] 2 0xA2 = Some True"
    by code_simp
  have t': "shtc1_check_crc [?f 0, ?f 1] 2 (?f 2) = Some True"
    using t by (simp add: frame_of_def)
  have h': "shtc1_check_crc [?f 3, ?f 4] 2 (?f 5) = Some True"
    using h by (simp add: frame_of_def)
  have d: "(0 :: addr) \<noteq> 1"
    by simp
  from temperature_conversion [OF r t' h' d, of "\<lambda>_. 7"]
  obtain m' s' where "shtc1_read_async_result ?m 0 1 (\<lambda>_. 7) = Some (STATUS_OK, m', s')"
    and "sint (s' 0) = (21875 * (256 * uint (?f 0) + uint (?f 1))) div 2 ^ 13 - 45000"
    by blast
  moreover have "(21875 * (256 * uint (?f 0) + uint (?f 1))) div 2 ^ 13 - 45000 = 26248"
    by (simp add: frame_of_def)
  ultimately show ?thesis
    using r t h by auto
qed

text \<open>
  Claim C3 as it was stated, without the condition on the locations, fails when both
  output pointers designate the same \<open>int\<close>: line 106 overwrites the temperature code, and
  with the valid frame \<open>68 3A FD 80 00 A2\<close> the operation returns \<open>STATUS_OK\<close> and leaves
  64849 in the one location, where the formula gives 26248 for \<open>S = 0x683A\<close>.
\<close>

theorem temperature_aliased_counterexample:
  "shtc1_check_crc [0x68, 0x3A] 2 0xFD = Some True
   \<and> shtc1_check_crc [0x80, 0x00] 2 0xA2 = Some True
   \<and> read_outputs 0 0
         (shtc1_read_async_result
            (example_module STATUS_OK STATUS_OK [0x68, 0x3A, 0xFD, 0x80, 0x00, 0xA2])
            0 0 example_store)
       = Some (STATUS_OK, 64849, 64849)
   \<and> (64849 :: int) \<noteq> (21875 * (256 * 0x68 + 0x3A)) div 2 ^ 13 - 45000"
proof -
  let ?m = "example_module STATUS_OK STATUS_OK [0x68, 0x3A, 0xFD, 0x80, 0x00, 0xA2]"
  have t: "shtc1_check_crc [0x68, 0x3A] 2 0xFD = Some True"
    by code_simp
  have h: "shtc1_check_crc [0x80, 0x00] 2 0xA2 = Some True"
    by code_simp
  have r: "read_result ?m (bus_log ?m @ [measurement_read])
             = (STATUS_OK, frame_of [0x68, 0x3A, 0xFD, 0x80, 0x00, 0xA2])"
    by (simp add: example_module_def)
  have raw: "raw_code 0x80 0x00 = 0x8000"
    by (simp add: raw_code_def)
  have v: "sint (signed_drop_bit 13 (12500 * (signed_drop_bit 13 (21875 * (0x8000 :: c_int)) - 45000)))
             = 64849"
    by (simp add: sint_signed_drop_bit_eq drop_bit_eq_div)
  show ?thesis
    unfolding shtc1_read_async_result_cases [OF r]
    using t h v by (simp add: read_outputs_def frame_of_def raw Let_def)
qed

text \<open>
  Claim C4, amended to distinct output locations. Under the same conditions the humidity
  output is computed from the raw code \<open>S\<close> assembled big-endian from bytes 3 and 4: it
  equals \<open>(12500 * S) >> 13\<close> on the integers, it is never negative, and for
  \<open>S = 0x8000\<close> it is exactly 50000.
\<close>

theorem humidity_conversion:
  assumes "read_result m (bus_log m @ [measurement_read]) = (STATUS_OK, frame)"
    and "shtc1_check_crc [frame 0, frame 1] 2 (frame 2) = Some True"
    and "shtc1_check_crc [frame 3, frame 4] 2 (frame 5) = Some True"
    and "temp \<noteq> rh"
  shows "\<exists>m' s'. shtc1_read_async_result m temp rh s = Some (STATUS_OK, m', s')
     \<and> s' rh = signed_drop_bit 13 (12500 * raw_code (frame 3) (frame 4))
     \<and> sint (12500 * raw_code (frame 3) (frame 4)) = 12500 * (256 * uint (frame 3) + uint (frame 4))
     \<and> sint (s' rh) = (12500 * (256 * uint (frame 3) + uint (frame 4))) div 2 ^ 13
     \<and> 0 \<le> sint (s' rh)
     \<and> (256 * uint (frame 3) + uint (frame 4) = 0x8000 \<longrightarrow> sint (s' rh) = 50000)"
proof -
  let ?raw = "raw_code (frame 3) (frame 4)"
  have range: "0 \<le> uint ?raw" "uint ?raw \<le> 65535"
    by (rule raw_code_range)+
  have prod: "sint (12500 * ?raw) = 12500 * uint ?raw"
    using sint_scaled [of 12500 ?raw] range by simp
  have "0 \<le> (12500 * uint ?raw) div 2 ^ 13"
    using range by (simp add: pos_imp_zdiv_nonneg_iff)
  then have nonneg: "0 \<le> sint (signed_drop_bit 13 (12500 * ?raw))"
    by (simp add: rh_conversion uint_raw_code)
  show ?thesis
    unfolding shtc1_read_async_result_cases [OF assms(1)] decoded_store_distinct [OF assms(4)]
    using assms(2,3,4) prod nonneg by (auto simp add: rh_conversion uint_raw_code)
qed

theorem humidity_conversion_witness:
  "read_result (example_module STATUS_OK STATUS_OK [0x68, 0x3A, 0xFD, 0x80, 0x00, 0xA2])
     (bus_log (example_module STATUS_OK STATUS_OK [0x68, 0x3A, 0xFD, 0x80, 0x00, 0xA2]) @ [measurement_read])
     = (STATUS_OK, frame_of [0x68, 0x3A, 0xFD, 0x80, 0x00, 0xA2])
   \<and> shtc1_check_crc [0x68, 0x3A] 2 0xFD = Some True
   \<and> shtc1_check_crc [0x80, 0x00] 2 0xA2 = Some True
   \<and> (2 :: addr) \<noteq> 3
   \<and> 256 * uint (0x80 :: u8) + uint (0x00 :: u8) = 0x8000
   \<and> (\<exists>m' s'. shtc1_read_async_result
                    (example_module STATUS_OK STATUS_OK [0x68, 0x3A, 0xFD, 0x80, 0x00, 0xA2])
                    2 3 (\<lambda>_. 0) = Some (STATUS_OK, m', s')
          \<and> sint (s' 3) = 50000)"
proof -
  let ?m = "example_module STATUS_OK STATUS_OK [0x68, 0x3A, 0xFD, 0x80, 0x00, 0xA2]"
  let ?f = "frame_of [0x68, 0x3A, 0xFD, 0x80, 0x00, 0xA2]"
  have r: "read_result ?m (bus_log ?m @ [measurement_read]) = (STATUS_OK, ?f)"
    by (simp add: example_module_def)
  have t: "shtc1_check_crc [0x68, 0x3A] 2 0xFD = Some True"
    by code_simp
  have h: "shtc1_check_crc [0x80, 0x00] 2 0xA2 = Some True"
    by code_simp
  have t': "shtc1_check_crc [?f 0, ?f 1] 2 (?f 2) = Some True"
    using t by (simp add: frame_of_def)
  have h': "shtc1_check_crc [?f 3, ?f 4] 2 (?f 5) = Some True"
    using h by (simp add: frame_of_def)
  have d: "(2 :: addr) \<noteq> 3"
    by simp
  have half: "256 * uint (?f 3) + uint (?f 4) = 0x8000"
    by (simp add: frame_of_def)
  from humidity_conversion [OF r t' h' d, of "\<lambda>_. 0"] half
  obtain m' s' where "shtc1_read_async_result ?m 2 3 (\<lambda>_. 0) = Some (STATUS_OK, m', s')"
    and "sint (s' 3) = 50000"
    by blast
  then show ?thesis
    using r t h by auto
qed

text \<open>
  Claim C4 as it was stated fails when both output pointers designate the same \<open>int\<close>:
  with the valid frame \<open>68 3A FD 00 00 81\<close> line 107 leaves \<open>- 45000\<close> in the one location,
  line 108 shifts the negative product \<open>12500 * - 45000\<close>, and the operation returns
  \<open>STATUS_OK\<close> with the output \<open>- 68665\<close>, which is negative and is not
  \<open>(12500 * 0) >> 13\<close>.
\<close>

theorem humidity_aliased_counterexample:
  "shtc1_check_crc [0x68, 0x3A] 2 0xFD = Some True
   \<and> shtc1_check_crc [0x00, 0x00] 2 0x81 = Some True
   \<and> read_outputs 0 0
         (shtc1_read_async_result
            (example_module STATUS_OK STATUS_OK [0x68, 0x3A, 0xFD, 0x00, 0x00, 0x81])
            0 0 example_store)
       = Some (STATUS_OK, - 68665, - 68665)
   \<and> \<not> (0 :: int) \<le> - 68665
   \<and> (- 68665 :: int) \<noteq> (12500 * (256 * 0x00 + 0x00)) div 2 ^ 13"
proof -
  let ?m = "example_module STATUS_OK STATUS_OK [0x68, 0x3A, 0xFD, 0x00, 0x00, 0x81]"
  have t: "shtc1_check_crc [0x68, 0x3A] 2 0xFD = Some True"
    by code_simp
  have h: "shtc1_check_crc [0x00, 0x00] 2 0x81 = Some True"
    by code_simp
  have r: "read_result ?m (bus_log ?m @ [measurement_read])
             = (STATUS_OK, frame_of [0x68, 0x3A, 0xFD, 0x00, 0x00, 0x81])"
    by (simp add: example_module_def)
  have raw: "raw_code 0x00 0x00 = 0"
    by (simp add: raw_code_def)
  have v: "sint (signed_drop_bit 13 (12500 * (signed_drop_bit 13 (21875 * (0 :: c_int)) - 45000)))
             = - 68665"
    by (simp add: sint_signed_drop_bit_eq drop_bit_eq_div)
  show ?thesis
    unfolding shtc1_read_async_result_cases [OF r]
    using t h v by (simp add: read_outputs_def frame_of_def raw Let_def)
qed

text \<open>
  Claim C10. The operation always returns, and on every return with a status other than
  \<open>STATUS_OK\<close>, whether the transport read failed (its status is passed on) or a check
  failed, the store is the one the caller gave. A store that differs from it means that
  the read succeeded, both checks passed and \<open>STATUS_OK\<close> is returned.
\<close>

theorem outputs_unchanged_on_error:
  "\<exists>ret m' s'. shtc1_read_async_result m temp rh s = Some (ret, m', s')
     \<and> (ret \<noteq> STATUS_OK \<longrightarrow> s' = s)
     \<and> (fst (read_result m (bus_log m @ [measurement_read])) \<noteq> STATUS_OK \<longrightarrow>
          ret = fst (read_result m (bus_log m @ [measurement_read])) \<and> s' = s)
     \<and> (s' \<noteq> s \<longrightarrow>
          ret = STATUS_OK
          \<and> fst (read_result m (bus_log m @ [measurement_read])) = STATUS_OK
          \<and> (let frame = snd (read_result m (bus_log m @ [measurement_read]))
             in shtc1_check_crc [frame 0, frame 1] 2 (frame 2) = Some True
                \<and> shtc1_check_crc [frame 3, frame 4] 2 (frame 5) = Some True))"
proof -
  obtain r frame where rd: "read_result m (bus_log m @ [measurement_read]) = (r, frame)"
    by (cases "read_result m (bus_log m @ [measurement_read])")
  show ?thesis
    unfolding shtc1_read_async_result_cases [OF rd] rd by (simp add: Let_def)
qed

theorem outputs_unchanged_on_error_witness:
  "fst (read_result (example_module STATUS_OK (STATUS_OTHER 5) [])
          (bus_log (example_module STATUS_OK (STATUS_OTHER 5) []) @ [measurement_read])) \<noteq> STATUS_OK
   \<and> (\<exists>m'. shtc1_read_async_result (example_module STATUS_OK (STATUS_OTHER 5) []) 0 1 (\<lambda>_. 7)
              = Some (STATUS_OTHER 5, m', \<lambda>_. 7))"
  using outputs_unchanged_on_error [of "example_module STATUS_OK (STATUS_OTHER 5) []" 0 1 "\<lambda>_. 7"]
  by (auto simp add: example_module_def)

section \<open>The blocking measurement operations\<close>

lemma write_command:
  "i2c_master_write_packet_wait_no_stop m
     \<lparr>address = SHTC1_ADDRESS, data_length = of_nat COMMAND_SIZE,
        ten_bit_address = False, high_speed = False\<rparr> command =
   (write_result m (bus_log m @ [command_write (take 2 command)]),
    m\<lparr>bus_log := bus_log m @ [command_write (take 2 command)]\<rparr>)"
  by (simp add: i2c_master_write_packet_wait_no_stop_def command_write_def SHTC1_ADDRESS_def
      COMMAND_SIZE_def CMD_MEASURE_LPM_def Let_def)

lemma shtc1_read_sync_cases:
  "shtc1_read_sync m command temp rh s =
     (if write_result m (bus_log m @ [command_write (take 2 command)]) \<noteq> STATUS_OK
      then Some (write_result m (bus_log m @ [command_write (take 2 command)]),
                 m\<lparr>bus_log := bus_log m @ [command_write (take 2 command), Delay_ms 50]\<rparr>, s)
      else shtc1_read_async_result
             (m\<lparr>bus_log := bus_log m @ [command_write (take 2 command), Delay_ms 50]\<rparr>) temp rh s)"
  by (simp add: shtc1_read_sync_def write_command delay_ms_def Let_def)

lemma shtc1_read_sync_decodes:
  "\<exists>ret m' s'. shtc1_read_sync m command temp rh s = Some (ret, m', s') \<and>
     (if write_result m (bus_log m @ [command_write (take 2 command)]) \<noteq> STATUS_OK
      then ret = write_result m (bus_log m @ [command_write (take 2 command)]) \<and> s' = s
           \<and> bus_log m' = bus_log m @ [command_write (take 2 command), Delay_ms 50]
      else bus_log m' = bus_log m @ [command_write (take 2 command), Delay_ms 50, measurement_read]
           \<and> shtc1_read_async_result
                (m\<lparr>bus_log := bus_log m @ [command_write (take 2 command), Delay_ms 50]\<rparr>) temp rh s
               = Some (ret, m', s')
           \<and> (case read_result m
                      (bus_log m @ [command_write (take 2 command), Delay_ms 50, measurement_read]) of
                (r, frame) \<Rightarrow>
                  if r \<noteq> STATUS_OK then ret = r \<and> s' = s
                  else if shtc1_check_crc [frame 0, frame 1] 2 (frame 2) = Some True
                        \<and> shtc1_check_crc [frame 3, frame 4] 2 (frame 5) = Some True
                  then ret = STATUS_OK
                     \<and> s' = (let s2 = (s(temp := raw_code (frame 0) (frame 1)))
                                        (rh := raw_code (frame 3) (frame 4));
                                 s3 = s2(temp := signed_drop_bit 13 (21875 * s2 temp) - 45000)
                             in s3(rh := signed_drop_bit 13 (12500 * s3 rh)))
                     \<and> (temp \<noteq> rh \<longrightarrow>
                          sint (s' temp)
                            = (21875 * (256 * uint (frame 0) + uint (frame 1))) div 2 ^ 13 - 45000
                          \<and> sint (s' rh)
                            = (12500 * (256 * uint (frame 3) + uint (frame 4))) div 2 ^ 13)
                  else ret = STATUS_ERR_BAD_DATA \<and> s' = s))"
proof (cases "write_result m (bus_log m @ [command_write (take 2 command)]) \<noteq> STATUS_OK")
  case True
  then show ?thesis
    unfolding shtc1_read_sync_cases by simp
next
  case False
  let ?m2 = "m\<lparr>bus_log := bus_log m @ [command_write (take 2 command), Delay_ms 50]\<rparr>"
  obtain r frame where rd0: "read_result m
      (bus_log m @ [command_write (take 2 command), Delay_ms 50, measurement_read]) = (r, frame)"
    by (cases "read_result m
      (bus_log m @ [command_write (take 2 command), Delay_ms 50, measurement_read])")
  then have rd: "read_result ?m2 (bus_log ?m2 @ [measurement_read]) = (r, frame)"
    by simp
  show ?thesis
    using False
    unfolding shtc1_read_sync_cases shtc1_read_async_result_cases [OF rd] rd0
    by (simp add: temp_conversion rh_conversion)
qed

text \<open>
  Claim C5. Each blocking measurement operation, high precision and low power, always
  returns, and the requests it makes are, in this order: the 2-byte clock-stretching
  command (\<open>0x7C 0xA2\<close> or \<open>0x64 0x58\<close>) written to address \<open>0x70\<close> without a stop
  condition, a delay of 50 ms in both modes, and then the read of 6 bytes. When the
  command write fails, its status is returned as it is, the store is unchanged, and the
  log ends with the delay: no read is made. When it succeeds, the six bytes are validated
  and decoded: a failed read passes its status on with the store unchanged; a frame that
  fails either pair check gives \<open>STATUS_ERR_BAD_DATA\<close> with the store unchanged; a frame
  that passes both gives \<open>STATUS_OK\<close> and the store after the four assignments of lines 105
  to 108, which for distinct output locations holds \<open>(21875 * S) >> 13 - 45000\<close> and
  \<open>(12500 * S) >> 13\<close> of the two raw codes. The outcome is that of the result-decoding
  operation run after the delay.
\<close>

theorem blocking_read_steps:
  "(\<exists>ret m' s'. shtc1_read_hpm_sync m temp rh s = Some (ret, m', s') \<and>
     (if write_result m (bus_log m @ [command_write [0x7c, 0xa2]]) \<noteq> STATUS_OK
      then ret = write_result m (bus_log m @ [command_write [0x7c, 0xa2]]) \<and> s' = s
           \<and> bus_log m' = bus_log m @ [command_write [0x7c, 0xa2], Delay_ms 50]
      else bus_log m' = bus_log m @ [command_write [0x7c, 0xa2], Delay_ms 50, measurement_read]
           \<and> shtc1_read_async_result
                (m\<lparr>bus_log := bus_log m @ [command_write [0x7c, 0xa2], Delay_ms 50]\<rparr>) temp rh s
               = Some (ret, m', s')
           \<and> (case read_result m
                      (bus_log m @ [command_write [0x7c, 0xa2], Delay_ms 50, measurement_read]) of
                (r, frame) \<Rightarrow>
                  if r \<noteq> STATUS_OK then ret = r \<and> s' = s
                  else if shtc1_check_crc [frame 0, frame 1] 2 (frame 2) = Some True
                        \<and> shtc1_check_crc [frame 3, frame 4] 2 (frame 5) = Some True
                  then ret = STATUS_OK
                     \<and> s' = (let s2 = (s(temp := raw_code (frame 0) (frame 1)))
                                        (rh := raw_code (frame 3) (frame 4));
                                 s3 = s2(temp := signed_drop_bit 13 (21875 * s2 temp) - 45000)
                             in s3(rh := signed_drop_bit 13 (12500 * s3 rh)))
                     \<and> (temp \<noteq> rh \<longrightarrow>
                          sint (s' temp)
                            = (21875 * (256 * uint (frame 0) + uint (frame 1))) div 2 ^ 13 - 45000
                          \<and> sint (s' rh)
                            = (12500 * (256 * uint (frame 3) + uint (frame 4))) div 2 ^ 13)
                  else ret = STATUS_ERR_BAD_DATA \<and> s' = s)))
   \<and> (\<exists>ret m' s'. shtc1_read_lpm_sync m temp rh s = Some (ret, m', s') \<and>
     (if write_result m (bus_log m @ [command_write [0x64, 0x58]]) \<noteq> STATUS_OK
      then ret = write_result m (bus_log m @ [command_write [0x64, 0x58]]) \<and> s' = s
           \<and> bus_log m' = bus_log m @ [command_write [0x64, 0x58], Delay_ms 50]
      else bus_log m' = bus_log m @ [command_write [0x64, 0x58], Delay_ms 50, measurement_read]
           \<and> shtc1_read_async_result
                (m\<lparr>bus_log := bus_log m @ [command_write [0x64, 0x58], Delay_ms 50]\<rparr>) temp rh s
               = Some (ret, m', s')
           \<and> (case read_result m
                      (bus_log m @ [command_write [0x64, 0x58], Delay_ms 50, measurement_read]) of
                (r, frame) \<Rightarrow>
                  if r \<noteq> STATUS_OK then ret = r \<and> s' = s
                  else if shtc1_check_crc [frame 0, frame 1] 2 (frame 2) = Some True
                        \<and> shtc1_check_crc [frame 3, frame 4] 2 (frame 5) = Some True
                  then ret = STATUS_OK
                     \<and> s' = (let s2 = (s(temp := raw_code (frame 0) (frame 1)))
                                        (rh := raw_code (frame 3) (frame 4));
                                 s3 = s2(temp := signed_drop_bit 13 (21875 * s2 temp) - 45000)
                             in s3(rh := signed_drop_bit 13 (12500 * s3 rh)))
                     \<and> (temp \<noteq> rh \<longrightarrow>
                          sint (s' temp)
                            = (21875 * (256 * uint (frame 0) + uint (frame 1))) div 2 ^ 13 - 45000
                          \<and> sint (s' rh)
                            = (12500 * (256 * uint (frame 3) + uint (frame 4))) div 2 ^ 13)
                  else ret = STATUS_ERR_BAD_DATA \<and> s' = s)))"
proof -
  have hpm: "take 2 CMD_MEASURE_HPM_CS = [0x7c, 0xa2]"
    by (simp add: CMD_MEASURE_HPM_CS_def)
  have lpm: "take 2 CMD_MEASURE_LPM_CS = [0x64, 0x58]"
    by (simp add: CMD_MEASURE_LPM_CS_def)
  show ?thesis
    unfolding shtc1_read_hpm_sync_def shtc1_read_lpm_sync_def
    by (rule conjI [OF shtc1_read_sync_decodes [of m CMD_MEASURE_HPM_CS temp rh s, unfolded hpm]
          shtc1_read_sync_decodes [of m CMD_MEASURE_LPM_CS temp rh s, unfolded lpm]])
qed

theorem blocking_read_steps_witness:
  "(\<exists>m'. shtc1_read_hpm_sync (example_module (STATUS_OTHER 3) STATUS_OK []) 0 1 example_store
            = Some (STATUS_OTHER 3, m', example_store)
          \<and> bus_log m' = [command_write [0x7c, 0xa2], Delay_ms 50])
   \<and> read_outputs 0 1
         (shtc1_read_hpm_sync
            (example_module STATUS_OK STATUS_OK [0x68, 0x3A, 0xFD, 0x80, 0x00, 0xA2])
            0 1 example_store)
       = Some (STATUS_OK, 26248, 50000)
   \<and> map_option (\<lambda>(ret, m, s). bus_log m)
         (shtc1_read_hpm_sync
            (example_module STATUS_OK STATUS_OK [0x68, 0x3A, 0xFD, 0x80, 0x00, 0xA2])
            0 1 example_store)
       = Some [command_write [0x7c, 0xa2], Delay_ms 50, measurement_read]
   \<and> read_outputs 0 1
         (shtc1_read_lpm_sync
            (example_module STATUS_OK STATUS_OK [0x68, 0x3A, 0xFD, 0x80, 0x01, 0xA2])
            0 1 example_store)
       = Some (STATUS_ERR_BAD_DATA, 7, 7)
   \<and> map_option (\<lambda>(ret, m, s). bus_log m)
         (shtc1_read_lpm_sync
            (example_module STATUS_OK STATUS_OK [0x68, 0x3A, 0xFD, 0x80, 0x01, 0xA2])
            0 1 example_store)
       = Some [command_write [0x64, 0x58], Delay_ms 50, measurement_read]"
proof -
  have t: "shtc1_check_crc [0x68, 0x3A] 2 0xFD = Some True"
    by code_simp
  have h: "shtc1_check_crc [0x80, 0x00] 2 0xA2 = Some True"
    by code_simp
  have c: "shtc1_check_crc [0x80, 0x01] 2 0xA2 = Some False"
    by code_simp
  have failed: "\<exists>m'. shtc1_read_hpm_sync (example_module (STATUS_OTHER 3) STATUS_OK []) 0 1 example_store
            = Some (STATUS_OTHER 3, m', example_store)
          \<and> bus_log m' = [command_write [0x7c, 0xa2], Delay_ms 50]"
    using blocking_read_steps [of "example_module (STATUS_OTHER 3) STATUS_OK []" 0 1 example_store]
    by (auto simp add: example_module_def)
  let ?good = "example_module STATUS_OK STATUS_OK [0x68, 0x3A, 0xFD, 0x80, 0x00, 0xA2]"
  from blocking_read_steps [of ?good 0 1 example_store]
  obtain ret m' s' where g: "shtc1_read_hpm_sync ?good 0 1 example_store = Some (ret, m', s')"
    and gl: "bus_log m' = [command_write [0x7c, 0xa2], Delay_ms 50, measurement_read]"
    and gr: "ret = STATUS_OK" and gt: "sint (s' 0) = 26248" and gh: "sint (s' 1) = 50000"
    using t h by (auto simp add: example_module_def frame_of_def)
  let ?bad = "example_module STATUS_OK STATUS_OK [0x68, 0x3A, 0xFD, 0x80, 0x01, 0xA2]"
  from blocking_read_steps [of ?bad 0 1 example_store]
  obtain retb mb sb where b: "shtc1_read_lpm_sync ?bad 0 1 example_store = Some (retb, mb, sb)"
    and bl: "bus_log mb = [command_write [0x64, 0x58], Delay_ms 50, measurement_read]"
    and br: "retb = STATUS_ERR_BAD_DATA" and bs: "sb = example_store"
    using t c by (auto simp add: example_module_def frame_of_def)
  have "sint (example_store 0) = 7" "sint (example_store 1) = 7"
    by (simp_all add: example_store_def)
  with failed g gl gr gt gh b bl br bs show ?thesis
    by (simp add: read_outputs_def)
qed


text \<open>
  Claim C6. When the command write of the blocking read succeeded and the read that
  follows it delivers the same status and the same six bytes as the read of the
  result-decoding operation called on its own, both return, with the same status and the
  same store: decoding does not depend on the protocol mode.
\<close>

theorem sync_async_same_result:
  assumes "write_result m (bus_log m @ [command_write (take 2 command)]) = STATUS_OK"
    and "read_result m (bus_log m @ [command_write (take 2 command), Delay_ms 50, measurement_read])
           = (r, frame)"
    and "read_result m2 (bus_log m2 @ [measurement_read]) = (r, frame2)"
    and "map frame [0 ..< 6] = map frame2 [0 ..< 6]"
  shows "\<exists>ret s' ma mb. shtc1_read_sync m command temp rh s = Some (ret, ma, s')
           \<and> shtc1_read_async_result m2 temp rh s = Some (ret, mb, s')"
proof -
  let ?m1 = "m\<lparr>bus_log := bus_log m @ [command_write (take 2 command), Delay_ms 50]\<rparr>"
  have rd: "read_result ?m1 (bus_log ?m1 @ [measurement_read]) = (r, frame)"
    using assms(2) by simp
  have same: "frame 0 = frame2 0" "frame 1 = frame2 1" "frame 2 = frame2 2"
    "frame 3 = frame2 3" "frame 4 = frame2 4" "frame 5 = frame2 5"
    using assms(4) by (simp_all add: upt_6)
  show ?thesis
    unfolding shtc1_read_sync_cases shtc1_read_async_result_cases [OF rd]
      shtc1_read_async_result_cases [OF assms(3)] same
    using assms(1) by simp
qed


theorem sync_async_same_result_witness:
  "write_result (example_module STATUS_OK STATUS_OK [0x68, 0x3A, 0xFD, 0x80, 0x00, 0xA2])
     (bus_log (example_module STATUS_OK STATUS_OK [0x68, 0x3A, 0xFD, 0x80, 0x00, 0xA2])
        @ [command_write (take 2 CMD_MEASURE_HPM_CS)]) = STATUS_OK
   \<and> (\<exists>ret s' ma mb.
         shtc1_read_sync (example_module STATUS_OK STATUS_OK [0x68, 0x3A, 0xFD, 0x80, 0x00, 0xA2])
           CMD_MEASURE_HPM_CS 0 1 (\<lambda>_. 7) = Some (ret, ma, s')
         \<and> shtc1_read_async_result
             (example_module (STATUS_OTHER 9) STATUS_OK [0x68, 0x3A, 0xFD, 0x80, 0x00, 0xA2, 0x55])
             0 1 (\<lambda>_. 7) = Some (ret, mb, s'))"
proof -
  let ?m = "example_module STATUS_OK STATUS_OK [0x68, 0x3A, 0xFD, 0x80, 0x00, 0xA2]"
  let ?m2 = "example_module (STATUS_OTHER 9) STATUS_OK [0x68, 0x3A, 0xFD, 0x80, 0x00, 0xA2, 0x55]"
  have w: "write_result ?m (bus_log ?m @ [command_write (take 2 CMD_MEASURE_HPM_CS)]) = STATUS_OK"
    by (simp add: example_module_def)
  have r: "read_result ?m (bus_log ?m @ [command_write (take 2 CMD_MEASURE_HPM_CS), Delay_ms 50,
             measurement_read]) = (STATUS_OK, frame_of [0x68, 0x3A, 0xFD, 0x80, 0x00, 0xA2])"
    by (simp add: example_module_def)
  have r2: "read_result ?m2 (bus_log ?m2 @ [measurement_read])
              = (STATUS_OK, frame_of [0x68, 0x3A, 0xFD, 0x80, 0x00, 0xA2, 0x55])"
    by (simp add: example_module_def)
  have same: "map (frame_of [0x68, 0x3A, 0xFD, 0x80, 0x00, 0xA2]) [0 ..< 6]
                = map (frame_of [0x68, 0x3A, 0xFD, 0x80, 0x00, 0xA2, 0x55]) [0 ..< 6]"
    by (simp add: frame_of_def upt_6)
  from sync_async_same_result [OF w r r2 same, of 0 1 "\<lambda>_. 7"] w
  show ?thesis
    by simp
qed

section \<open>The presence probe\<close>

lemma read_id_frame:
  assumes "read_result m (bus_log m @ [id_read]) = (ret, frame)"
  shows "i2c_master_read_packet_wait m
           \<lparr>address = SHTC1_ADDRESS, data_length = 3, ten_bit_address = False, high_speed = False\<rparr> =
         (ret, [frame 0, frame 1, frame 2], m\<lparr>bus_log := bus_log m @ [id_read]\<rparr>)"
  using assms
  by (simp add: i2c_master_read_packet_wait_def id_read_def SHTC1_ADDRESS_def upt_3)

lemma id_compare:
  "((ucast (x :: u8) :: c_int) AND ucast ID_REG_MASK = ucast ID_REG_CONTENT) = (x AND 0x1f = 0x07)"
proof -
  have "((ucast x :: c_int) AND ucast ID_REG_MASK = ucast ID_REG_CONTENT)
          = (uint ((ucast x :: c_int) AND ucast ID_REG_MASK) = uint (ucast ID_REG_CONTENT :: c_int))"
    by (rule word_uint_eq_iff)
  also have "\<dots> = (uint (x AND ID_REG_MASK) = uint ID_REG_CONTENT)"
    by (simp add: uint_and uint_up_ucast is_up)
  also have "\<dots> = (x AND ID_REG_MASK = ID_REG_CONTENT)"
    by (rule word_uint_eq_iff [symmetric])
  finally show ?thesis
    by (simp add: ID_REG_MASK_def ID_REG_CONTENT_def)
qed

lemma shtc1_probe_cases:
  assumes "read_result m (bus_log m @ [command_write [0xef, 0xc8], Delay_ms 50, id_read]) = (ret, frame)"
  shows "shtc1_probe m =
     Some (ret = STATUS_OK \<and> shtc1_check_crc [frame 0, frame 1] 2 (frame 2) = Some True
             \<and> frame 1 AND 0x1f = 0x07,
           m\<lparr>bus_log := bus_log m @ [command_write [0xef, 0xc8], Delay_ms 50, id_read]\<rparr>)"
proof -
  let ?m2 = "m\<lparr>bus_log := bus_log m @ [command_write [0xef, 0xc8], Delay_ms 50]\<rparr>"
  have cmd: "take 2 CMD_READ_ID_REG = [0xef, 0xc8]"
    by (simp add: CMD_READ_ID_REG_def)
  have rd: "read_result ?m2 (bus_log ?m2 @ [id_read]) = (ret, frame)"
    using assms by simp
  show ?thesis
    unfolding shtc1_probe_def
    by (simp add: write_command cmd delay_ms_def Let_def read_id_frame [OF rd]
        check_crc_pair_prefix check_crc_pair_total id_compare)
qed

text \<open>
  Claim C7. The probe always returns and its requests are always the command write
  (\<open>0xEF 0xC8\<close>, no stop condition), the delay and the 3-byte read, whatever the write
  reported: the answer is the same when the status of the write is replaced by any other.
  Whenever the read fails, the answer is false.
\<close>

theorem probe_false_when_read_fails:
  "\<exists>present m'. shtc1_probe m = Some (present, m')
     \<and> bus_log m' = bus_log m @ [command_write [0xef, 0xc8], Delay_ms 50, id_read]
     \<and> (fst (read_result m (bus_log m @ [command_write [0xef, 0xc8], Delay_ms 50, id_read]))
            \<noteq> STATUS_OK \<longrightarrow> \<not> present)
     \<and> map_option fst (shtc1_probe (m\<lparr>write_result := w\<rparr>)) = Some present"
proof -
  obtain r frame where
    rd: "read_result m (bus_log m @ [command_write [0xef, 0xc8], Delay_ms 50, id_read]) = (r, frame)"
    by (cases "read_result m (bus_log m @ [command_write [0xef, 0xc8], Delay_ms 50, id_read])")
  let ?mw = "m\<lparr>write_result := w\<rparr>"
  have rdw: "read_result ?mw (bus_log ?mw @ [command_write [0xef, 0xc8], Delay_ms 50, id_read])
               = (r, frame)"
    using rd by simp
  show ?thesis
    unfolding shtc1_probe_cases [OF rd] shtc1_probe_cases [OF rdw] rd by simp
qed

theorem probe_false_when_read_fails_witness:
  "fst (read_result (example_module (STATUS_OTHER 3) (STATUS_OTHER 4) [0x00, 0x07, 0x16])
         (bus_log (example_module (STATUS_OTHER 3) (STATUS_OTHER 4) [0x00, 0x07, 0x16])
            @ [command_write [0xef, 0xc8], Delay_ms 50, id_read])) \<noteq> STATUS_OK
   \<and> (\<exists>m'. shtc1_probe (example_module (STATUS_OTHER 3) (STATUS_OTHER 4) [0x00, 0x07, 0x16])
               = Some (False, m')
            \<and> bus_log m' = [command_write [0xef, 0xc8], Delay_ms 50, id_read])
   \<and> map_option fst (shtc1_probe (example_module STATUS_OK (STATUS_OTHER 4) [0x00, 0x07, 0x16]))
       = Some False"
proof -
  let ?m = "example_module (STATUS_OTHER 3) (STATUS_OTHER 4) [0x00, 0x07, 0x16]"
  have same: "?m\<lparr>write_result := \<lambda>_. STATUS_OK\<rparr>
                = example_module STATUS_OK (STATUS_OTHER 4) [0x00, 0x07, 0x16]"
    by (simp add: example_module_def)
  from probe_false_when_read_fails [of ?m "\<lambda>_. STATUS_OK"]
  show ?thesis
    unfolding same by (auto simp add: example_module_def)
qed

text \<open>
  Claim C8. For every identification frame that was read successfully and whose checksum
  over the first two bytes is valid, the probe answers true if and only if the low 5 bits
  of the second byte are \<open>0x07\<close>; with other bits there the answer is false although the
  checksum is valid.
\<close>

theorem probe_true_iff_signature:
  assumes "read_result m (bus_log m @ [command_write [0xef, 0xc8], Delay_ms 50, id_read])
             = (STATUS_OK, frame)"
    and "shtc1_check_crc [frame 0, frame 1] 2 (frame 2) = Some True"
  shows "\<exists>m'. shtc1_probe m = Some (frame 1 AND 0x1f = 0x07, m')"
  unfolding shtc1_probe_cases [OF assms(1)] using assms(2) by simp

theorem probe_true_iff_signature_witness:
  "read_result (example_module STATUS_OK STATUS_OK [0x00, 0x08, 0x38])
     (bus_log (example_module STATUS_OK STATUS_OK [0x00, 0x08, 0x38])
        @ [command_write [0xef, 0xc8], Delay_ms 50, id_read])
     = (STATUS_OK, frame_of [0x00, 0x08, 0x38])
   \<and> shtc1_check_crc [0x00, 0x08] 2 0x38 = Some True
   \<and> (0x08 :: u8) AND 0x1f \<noteq> 0x07
   \<and> (\<exists>m'. shtc1_probe (example_module STATUS_OK STATUS_OK [0x00, 0x08, 0x38]) = Some (False, m'))"
proof -
  let ?m = "example_module STATUS_OK STATUS_OK [0x00, 0x08, 0x38]"
  let ?f = "frame_of [0x00, 0x08, 0x38]"
  have r: "read_result ?m (bus_log ?m @ [command_write [0xef, 0xc8], Delay_ms 50, id_read])
             = (STATUS_OK, ?f)"
    by (simp add: example_module_def)
  have c: "shtc1_check_crc [0x00, 0x08] 2 0x38 = Some True"
    by code_simp
  have c': "shtc1_check_crc [?f 0, ?f 1] 2 (?f 2) = Some True"
    using c by (simp add: frame_of_def)
  have n: "(0x08 :: u8) AND 0x1f \<noteq> 0x07"
    by simp
  from probe_true_iff_signature [OF r c'] n
  have "\<exists>m'. shtc1_probe ?m = Some (False, m')"
    by (simp add: frame_of_def)
  then show ?thesis
    using r c n by simp
qed

section \<open>Error detection\<close>

lemma bit0_crc_shift: "bit (crc_shift crc) 0 = bit crc 7"
  by (simp add: crc_shift_word CRC_POLYNOMIAL_def bit_0 even_xor_iff)

lemma xor_right_cancel:
  fixes x y p :: u8
  assumes "x XOR p = y XOR p" shows "x = y"
proof -
  from assms have "(x XOR p) XOR p = (y XOR p) XOR p"
    by simp
  then show ?thesis
    by (simp add: xor.assoc)
qed

lemma crc_shift_inj:
  assumes "crc_shift a = crc_shift b" shows "a = b"
proof -
  have top: "bit a 7 = bit b 7"
    using assms bit0_crc_shift [of a] bit0_crc_shift [of b] by simp
  have dbl: "2 * a = 2 * b"
    using assms top by (auto simp add: crc_shift_word split: if_splits dest: xor_right_cancel)
  have low: "bit a n = bit b n" if "n < 7" for n
  proof -
    have shift: "bit (2 * w) (Suc n) = bit w n" for w :: u8
    proof -
      have "bit (push_bit 1 w) (Suc n) = bit w n"
        unfolding bit_push_bit_iff using that by (simp add: possible_bit_word)
      then show ?thesis
        by (simp add: mult.commute)
    qed
    from dbl have "bit (2 * a) (Suc n) = bit (2 * b) (Suc n)"
      by simp
    then show ?thesis
      by (simp only: shift)
  qed
  show ?thesis
  proof (rule bit_word_eqI)
    fix n assume "n < LENGTH(8)"
    then have "n < 7 \<or> n = 7" by auto
    then show "bit a n = bit b n" using low top by auto
  qed
qed

lemma crc_bit_loop_inj: "crc_bit_loop n a = crc_bit_loop n b \<Longrightarrow> a = b"
  by (induction n arbitrary: a b) (auto dest: crc_shift_inj)

lemma crc_pair_inj:
  assumes "crc_bit_loop 8 (crc_bit_loop 8 (CRC_INIT XOR a) XOR b) =
           crc_bit_loop 8 (crc_bit_loop 8 (CRC_INIT XOR a') XOR b')"
    and "a = a' \<or> b = b'"
  shows "a = a' \<and> b = b'"
proof -
  from assms(1) have outer: "crc_bit_loop 8 (CRC_INIT XOR a) XOR b = crc_bit_loop 8 (CRC_INIT XOR a') XOR b'"
    by (rule crc_bit_loop_inj)
  from assms(2) show ?thesis
  proof
    assume a: "a = a'"
    with outer have "b XOR crc_bit_loop 8 (CRC_INIT XOR a) = b' XOR crc_bit_loop 8 (CRC_INIT XOR a)"
      by (simp add: xor.commute)
    then have "b = b'"
      by (rule xor_right_cancel)
    with a show ?thesis
      by simp
  next
    assume b: "b = b'"
    with outer have "crc_bit_loop 8 (CRC_INIT XOR a) = crc_bit_loop 8 (CRC_INIT XOR a')"
      by (auto dest: xor_right_cancel)
    then have "CRC_INIT XOR a = CRC_INIT XOR a'"
      by (rule crc_bit_loop_inj)
    then have "a XOR CRC_INIT = a' XOR CRC_INIT"
      by (simp add: xor.commute)
    then have "a = a'"
      by (rule xor_right_cancel)
    with b show ?thesis
      by simp
  qed
qed

lemma flip_changes:
  fixes a :: u8
  assumes "k < 8"
  shows "a XOR push_bit k 1 \<noteq> a"
proof
  assume "a XOR push_bit k 1 = a"
  then have "bit (a XOR push_bit k 1) k = bit a k"
    by simp
  then show False
    using assms by (simp add: bit_xor_iff bit_exp_iff possible_bit_word)
qed

text \<open>
  Claim C9. For every 2-byte payload and the checksum byte that validates it, flipping
  any one bit of either payload byte makes the validation against that checksum byte
  return false.
\<close>

theorem single_bit_flip_detected:
  assumes "shtc1_check_crc [a, b] 2 c = Some True"
    and "k < 8"
  shows "shtc1_check_crc [a XOR push_bit k 1, b] 2 c = Some False
       \<and> shtc1_check_crc [a, b XOR push_bit k 1] 2 c = Some False"
proof -
  have c: "crc_bit_loop 8 (crc_bit_loop 8 (CRC_INIT XOR a) XOR b) = c"
    using assms(1) by (simp add: check_crc_pair_total)
  have "crc_bit_loop 8 (crc_bit_loop 8 (CRC_INIT XOR (a XOR push_bit k 1)) XOR b) \<noteq> c"
    unfolding c [symmetric] using crc_pair_inj [of "a XOR push_bit k 1" b a b] flip_changes [OF assms(2), of a]
    by blast
  moreover have "crc_bit_loop 8 (crc_bit_loop 8 (CRC_INIT XOR a) XOR (b XOR push_bit k 1)) \<noteq> c"
    unfolding c [symmetric] using crc_pair_inj [of a "b XOR push_bit k 1" a b] flip_changes [OF assms(2), of b]
    by blast
  ultimately show ?thesis
    by (simp add: check_crc_pair_total)
qed

theorem single_bit_flip_detected_witness:
  "shtc1_check_crc [0xBE, 0xEF] 2 0x92 = Some True \<and> (3 :: nat) < 8
   \<and> shtc1_check_crc [0xB6, 0xEF] 2 0x92 = Some False
   \<and> shtc1_check_crc [0xBE, 0xE7] 2 0x92 = Some False"
proof -
  have v: "shtc1_check_crc [0xBE, 0xEF] 2 0x92 = Some True"
    by code_simp
  have k: "(3 :: nat) < 8"
    by simp
  have "(0xBE :: u8) XOR push_bit 3 1 = 0xB6" "(0xEF :: u8) XOR push_bit 3 1 = 0xE7"
    by simp_all
  with single_bit_flip_detected [OF v k] v show ?thesis
    by simp
qed


end
